theory Spec2Isabelle
  imports Complex_Main "HOL-Library.Sublist"
begin

section \<open>JavaScript values used by the item list\<close>

text \<open>
  The component \<open>VirtualizedItemList\<close> (frontend/src/components/VirtualizedItemList.js)
  receives an array of item objects and a height. It reads four properties of each
  item (\<open>id\<close>, \<open>name\<close>, \<open>category\<close>, \<open>price\<close>) and never computes with them: it
  passes them on, joins one to a string and asks one for its locale string.

  A property holds a primitive value. Numbers are the reals; the component does no
  arithmetic on them. An object is a finite map from property names to values, and
  reading an absent property gives \<open>undefined\<close>.
\<close>

datatype jsval = JUndefined | JNull | JBool bool | JNum real | JStr string

type_synonym obj = "string \<rightharpoonup> jsval"

definition get_prop :: "obj \<Rightarrow> string \<Rightarrow> jsval" where
  "get_prop ob k = (case ob k of None \<Rightarrow> JUndefined | Some v \<Rightarrow> v)"

datatype error = TypeError

text \<open>
  How a number prints is the host's business: \<open>Number.prototype.toString\<close> and the
  locale-dependent \<open>Number.prototype.toLocaleString\<close> are parameters of the model.
\<close>

record host =
  numberToString :: "real \<Rightarrow> string"
  numberToLocaleString :: "real \<Rightarrow> string"

fun ToString :: "host \<Rightarrow> jsval \<Rightarrow> string" where
  "ToString h JUndefined = ''undefined''"
| "ToString h JNull = ''null''"
| "ToString h (JBool b) = (if b then ''true'' else ''false'')"
| "ToString h (JNum n) = numberToString h n"
| "ToString h (JStr s) = s"

text \<open>\<open>s + v\<close> with a string on the left: the right operand is converted and appended.\<close>

definition plus_string :: "host \<Rightarrow> string \<Rightarrow> jsval \<Rightarrow> string" where
  "plus_string h s v = s @ ToString h v"

text \<open>
  \<open>v.toLocaleString()\<close>: reading a property of \<open>undefined\<close> or \<open>null\<close> throws a
  TypeError; a string answers with itself, a boolean with its \<open>toString()\<close>.
\<close>

fun toLocaleString :: "host \<Rightarrow> jsval \<Rightarrow> error + string" where
  "toLocaleString h JUndefined = Inl TypeError"
| "toLocaleString h JNull = Inl TypeError"
| "toLocaleString h (JBool b) = Inr (ToString h (JBool b))"
| "toLocaleString h (JNum n) = Inr (numberToLocaleString h n)"
| "toLocaleString h (JStr s) = Inr s"

section \<open>The element tree\<close>

text \<open>
  A JSX element has a tag, an optional key, its other attributes, an inline style
  (the properties in the order written), event handlers and children; a child is an
  element, literal text or the value of an expression in braces. Both handlers of the
  source assign a colour to \<open>e.currentTarget.style.backgroundColor\<close>.

  The key of an element is a string: React's \<open>createElement\<close> stores
  \<open>'' + key\<close> for a \<open>key\<close> attribute that is not \<open>undefined\<close>, and no key
  for one that is.
\<close>

datatype handler = SetBackgroundColor string

datatype vnode =
    Element (tag: string) (key: "string option") (attrs: "(string \<times> jsval) list")
      (style: "(string \<times> jsval) list") (handlers: "(string \<times> handler) list")
      (children: "vnode list")
  | Text string
  | Expr jsval
where
  "key (Text s) = None"
| "key (Expr v) = None"
| "attrs (Text s) = []"
| "attrs (Expr v) = []"
| "style (Text s) = []"
| "style (Expr v) = []"
| "children (Text s) = []"
| "children (Expr v) = []"

definition element_key :: "host \<Rightarrow> jsval \<Rightarrow> string option" where
  "element_key h v = (if v = JUndefined then None else Some (plus_string h [] v))"

section \<open>VirtualizedItemList\<close>

record props =
  items :: "obj list"
  height :: jsval

text \<open>The destructuring default \<open>height = 600\<close> applies to \<open>undefined\<close> only.\<close>

definition height_or_default :: "jsval \<Rightarrow> jsval" where
  "height_or_default v = (if v = JUndefined then JNum 600 else v)"

text \<open>
  \<open>Array.prototype.map\<close> calls the callback on the elements in order, with their
  indices; the first call that throws ends the loop with its exception.
\<close>

fun map_indexed :: "(obj \<Rightarrow> nat \<Rightarrow> error + vnode) \<Rightarrow> nat \<Rightarrow> obj list \<Rightarrow> error + vnode list" where
  "map_indexed f i [] = Inr []"
| "map_indexed f i (x # xs) =
     (case f x i of
        Inl e \<Rightarrow> Inl e
      | Inr y \<Rightarrow> (case map_indexed f (Suc i) xs of Inl e \<Rightarrow> Inl e | Inr ys \<Rightarrow> Inr (y # ys)))"

text \<open>The callback of the source: one row for \<open>item\<close> at \<open>index\<close> of \<open>n\<close> items.\<close>

definition link_style :: "(string \<times> jsval) list" where
  "link_style =
     [(''display'', JStr ''flex''),
      (''justifyContent'', JStr ''space-between''),
      (''alignItems'', JStr ''center''),
      (''padding'', JStr ''16px''),
      (''textDecoration'', JStr ''none''),
      (''color'', JStr ''#333''),
      (''transition'', JStr ''background-color 0.2s''),
      (''height'', JStr ''100%''),
      (''boxSizing'', JStr ''border-box'')]"

definition row :: "host \<Rightarrow> nat \<Rightarrow> obj \<Rightarrow> nat \<Rightarrow> error + vnode" where
  "row h n item index =
     (let k = get_prop item ''id'';
          border = (if int index < int n - 1 then ''1px solid #e0e0e0'' else ''none'');
          to = plus_string h ''/items/'' (get_prop item ''id'');
          name_cell = Element ''div'' None []
            [(''fontWeight'', JStr ''500''), (''marginBottom'', JStr ''4px'')] []
            [Expr (get_prop item ''name'')];
          category_cell = Element ''div'' None []
            [(''fontSize'', JStr ''14px''), (''color'', JStr ''#666'')] []
            [Expr (get_prop item ''category'')]
      in case toLocaleString h (get_prop item ''price'') of
           Inl e \<Rightarrow> Inl e
         | Inr shown \<Rightarrow>
             Inr (Element ''div'' (element_key h k) []
               [(''height'', JStr ''70px''), (''borderBottom'', JStr border)] []
               [Element ''Link'' None [(''to'', JStr to)] link_style
                  [(''onMouseEnter'', SetBackgroundColor ''#f5f5f5''),
                   (''onMouseLeave'', SetBackgroundColor ''transparent'')]
                  [Element ''div'' None [] [] [] [name_cell, category_cell],
                   Element ''div'' None []
                     [(''fontWeight'', JStr ''600''), (''color'', JStr ''#007bff'')] []
                     [Text ''$'', Expr (JStr shown)]]]))"

text \<open>The style of the outer container, for the height the component works with.\<close>

definition container_style :: "jsval \<Rightarrow> (string \<times> jsval) list" where
  "container_style hgt =
     [(''backgroundColor'', JStr ''white''),
      (''border'', JStr ''1px solid #e0e0e0''),
      (''borderRadius'', JStr ''4px''),
      (''maxHeight'', hgt),
      (''overflow'', JStr ''auto'')]"

definition VirtualizedItemList :: "host \<Rightarrow> props \<Rightarrow> error + vnode" where
  "VirtualizedItemList h p =
     (case map_indexed (row h (length (items p))) 0 (items p) of
        Inl e \<Rightarrow> Inl e
      | Inr rows \<Rightarrow>
          Inr (Element ''div'' None [] (container_style (height_or_default (height p))) []
            rows))"

section \<open>Reading the rendered tree\<close>

text \<open>
  The rows are the children of the outer container. Inside a row, the link is the
  only child; the link holds the cell of name and category, then the price cell.
\<close>

definition child :: "nat \<Rightarrow> vnode \<Rightarrow> vnode option" where
  "child i v = (if i < length (children v) then Some (children v ! i) else None)"

definition row_link :: "vnode \<Rightarrow> vnode option" where
  "row_link r = child 0 r"

definition link_target :: "vnode \<Rightarrow> jsval option" where
  "link_target r = Option.bind (row_link r) (\<lambda>l. map_of (attrs l) ''to'')"

definition name_cell :: "vnode \<Rightarrow> vnode option" where
  "name_cell r = Option.bind (Option.bind (row_link r) (child 0)) (child 0)"

definition category_cell :: "vnode \<Rightarrow> vnode option" where
  "category_cell r = Option.bind (Option.bind (row_link r) (child 0)) (child 1)"

definition price_cell :: "vnode \<Rightarrow> vnode option" where
  "price_cell r = Option.bind (row_link r) (child 1)"

definition nullish :: "jsval \<Rightarrow> bool" where
  "nullish v = (v = JUndefined \<or> v = JNull)"

definition is_number :: "jsval \<Rightarrow> bool" where
  "is_number v = (case v of JNum n \<Rightarrow> True | _ \<Rightarrow> False)"

text \<open>
  A host for evaluating the component on concrete items: it prints the numbers the
  examples use as an en-US JavaScript engine does.
\<close>

definition example_host :: host where
  "example_host =
     \<lparr>numberToString = (\<lambda>n. if n = 1 then ''1'' else if n = 2 then ''2'' else ''0''),
      numberToLocaleString = (\<lambda>n. if n = 1200 then ''1,200'' else if n = 15 then ''15'' else ''0'')\<rparr>"

definition hammer :: obj where
  "hammer = [''id'' \<mapsto> JNum 1, ''name'' \<mapsto> JStr ''Hammer'',
             ''category'' \<mapsto> JStr ''Tools'', ''price'' \<mapsto> JNum 15]"

definition laptop :: obj where
  "laptop = [''id'' \<mapsto> JNum 2, ''name'' \<mapsto> JStr ''Laptop'',
             ''category'' \<mapsto> JStr ''Electronics'', ''price'' \<mapsto> JNum 1200]"

definition unpriced :: obj where
  "unpriced = [''id'' \<mapsto> JNum 2, ''name'' \<mapsto> JStr ''Laptop'',
               ''category'' \<mapsto> JStr ''Electronics'']"

section \<open>The Query Engine\<close>

text \<open>
  The backend (the items and stats routes, the Item Store) is not among the sources:
  only the list component is. The definitions of this section and the next follow the
  specification, sections 3, 4.2 and 4.3, sentence by sentence.
\<close>

text \<open>
  Modelled from the spec: the backend's Item type is missing from the sources. "Item:
  attributes: id (unique, assigned at creation), name (non-empty text), category
  (non-empty text), price (non-negative number)."
\<close>

record item =
  item_id :: nat
  item_name :: string
  item_category :: string
  item_price :: real

text \<open>
  Modelled from the spec: the request parsing of the items route is missing. "Query
  Parameters: search: optional text, page: positive integer, limit: positive
  integer"; each may be unspecified.
\<close>

record query_params =
  search :: "string option"
  page :: "nat option"
  limit :: "nat option"

text \<open>
  Modelled from the spec: the response of the items route is missing. The Query Engine
  returns "items, total, page, limit".
\<close>

record query_result =
  r_items :: "item list"
  r_total :: nat
  r_page :: nat
  r_limit :: nat

text \<open>
  Modelled from the spec: the trimming the items route applies to the search text is
  missing. White space is the ASCII space and the control characters 9 to 13.
\<close>

definition is_space :: "char \<Rightarrow> bool" where
  "is_space c = (let n = (of_char c :: nat) in n = 32 \<or> (9 \<le> n \<and> n \<le> 13))"

text \<open>
  Modelled from the spec: the trimming the items route applies to the search text is
  missing. "Non-empty after trimming": white space is removed at both ends.
\<close>

definition trim :: "string \<Rightarrow> string" where
  "trim s = rev (dropWhile is_space (rev (dropWhile is_space s)))"

text \<open>
  Modelled from the spec: the case folding of the items route is missing.
  "Case-insensitive": a letter A to Z is read as its lower-case letter.
\<close>

definition to_lower :: "char \<Rightarrow> char" where
  "to_lower c = (let n = (of_char c :: nat) in if 65 \<le> n \<and> n \<le> 90 then char_of (n + 32) else c)"

text \<open>
  Modelled from the spec: the matching of the items route is missing. A text "contains
  the search text using case-insensitive substring matching": the folded search text
  is a contiguous part of the folded text.
\<close>

definition contains_ci :: "string \<Rightarrow> string \<Rightarrow> bool" where
  "contains_ci text q = sublist (map to_lower q) (map to_lower text)"

text \<open>
  Modelled from the spec: the filter predicate of the items route is missing. "Keep
  items whose name OR category contains the search text."
\<close>

definition matches :: "string \<Rightarrow> item \<Rightarrow> bool" where
  "matches q it = (contains_ci (item_name it) q \<or> contains_ci (item_category it) q)"

text \<open>
  Modelled from the spec: the filtering of the items route is missing. "If search is
  present (and non-empty after trimming), keep items whose name OR category contains
  the search text. Absent/empty search passes all items."
\<close>

definition apply_search :: "string option \<Rightarrow> item list \<Rightarrow> item list" where
  "apply_search s coll =
     (case s of
        None \<Rightarrow> coll
      | Some q \<Rightarrow> if trim q = [] then coll else filter (matches q) coll)"

text \<open>
  Modelled from the spec: the defaults of the items route are missing. "Default page
  when unspecified: 1."
\<close>

definition page_or_default :: "query_params \<Rightarrow> nat" where
  "page_or_default ps = (case page ps of None \<Rightarrow> 1 | Some n \<Rightarrow> n)"

text \<open>
  Modelled from the spec: the defaults of the items route are missing. "Default limit
  when unspecified: 10."
\<close>

definition limit_or_default :: "query_params \<Rightarrow> nat" where
  "limit_or_default ps = (case limit ps of None \<Rightarrow> 10 | Some n \<Rightarrow> n)"

text \<open>
  Modelled from the spec: the Query Engine of the items route is missing. "total =
  count of items after filtering, before pagination. Pagination: slice the filtered
  sequence starting at (page - 1) * limit, length limit." It is a pure function with
  no error outcome.
\<close>

definition query_engine :: "item list \<Rightarrow> query_params \<Rightarrow> query_result" where
  "query_engine coll ps =
     (let filtered = apply_search (search ps) coll;
          pg = page_or_default ps;
          lm = limit_or_default ps
      in \<lparr>r_items = take lm (drop ((pg - 1) * lm) filtered),
          r_total = length filtered,
          r_page = pg,
          r_limit = lm\<rparr>)"

section \<open>The Stats Cache\<close>

text \<open>
  Modelled from the spec: the stats route is missing. "Stats Aggregate: count: integer,
  averagePrice: number."
\<close>

record stats =
  count :: nat
  averagePrice :: real

text \<open>
  Modelled from the spec: the cache of the stats route is missing. It is "a single
  logical cache entry", the "explicit struct value, observedTimestamp"; no entry is
  the state Empty.
\<close>

record cache_entry =
  cached_value :: stats
  observedTimestamp :: nat

type_synonym cache = "cache_entry option"

text \<open>
  Modelled from the spec: the cache of the stats route is missing. "State machine:
  Empty, Valid, Stale." An entry is Valid while the store's modification timestamp
  equals the one observed with it, and Stale otherwise.
\<close>

datatype cache_state = Empty | Valid | Stale

definition state_of :: "cache \<Rightarrow> nat \<Rightarrow> cache_state" where
  "state_of c T_now =
     (case c of
        None \<Rightarrow> Empty
      | Some e \<Rightarrow> if T_now = observedTimestamp e then Valid else Stale)"

text \<open>
  Modelled from the spec: the Item Store is missing. The store file has a modification
  timestamp and holds the collection; \<open>reads\<close> is the read-count probe of the
  specification's test, the number of \<open>list()\<close> calls so far. The state machine
  of section 4.2 is written for a store that can be read; what \<open>getStats\<close> does
  when \<open>list()\<close> fails is not said there and is not modelled.
\<close>

record store =
  mtime :: nat
  collection :: "item list"
  reads :: nat

text \<open>
  Modelled from the spec: the Item Store is missing. "list(): reads the full collection
  from persisted storage"; each call counts as one read.
\<close>

definition store_list :: "store \<Rightarrow> item list \<times> store" where
  "store_list st = (collection st, st\<lparr>reads := reads st + 1\<rparr>)"

text \<open>
  Modelled from the spec: the aggregation of the stats route is missing. "Compute count,
  averagePrice (average of 0 items is defined as 0)."
\<close>

definition compute_stats :: "item list \<Rightarrow> stats" where
  "compute_stats xs =
     \<lparr>count = length xs,
      averagePrice = (if xs = [] then 0 else sum_list (map item_price xs) / real (length xs))\<rparr>"

text \<open>
  Modelled from the spec: the cache fill of the stats route is missing. "Call Item
  Store list(); compute count, averagePrice; cache value, observedTimestamp: T_now;
  transition to Valid."
\<close>

definition recompute :: "nat \<Rightarrow> store \<Rightarrow> stats \<times> cache \<times> store" where
  "recompute T_now st =
     (case store_list st of
        (xs, st') \<Rightarrow>
          (let v = compute_stats xs
           in (v, Some \<lparr>cached_value = v, observedTimestamp = T_now\<rparr>, st')))"

text \<open>
  Modelled from the spec: getStats of the stats route is missing. "On getStats() while
  Empty or Stale: read the store's current modification timestamp T_now", then fill
  the cache. "On getStats() while Valid: read T_now again; if T_now equals
  observedTimestamp, return cached value without recomputation; otherwise recompute
  as above."
\<close>

definition getStats :: "cache \<Rightarrow> store \<Rightarrow> stats \<times> cache \<times> store" where
  "getStats c st =
     (let T_now = mtime st
      in case c of
           None \<Rightarrow> recompute T_now st
         | Some e \<Rightarrow>
             if T_now = observedTimestamp e then (cached_value e, c, st)
             else recompute T_now st)"

text \<open>
  Three items of a catalog, for evaluating the Query Engine and the Stats Cache.
\<close>

definition power_tool :: item where
  "power_tool = \<lparr>item_id = 1, item_name = ''power tool'', item_category = ''Garden'', item_price = 10\<rparr>"

definition wrench :: item where
  "wrench = \<lparr>item_id = 2, item_name = ''Wrench'', item_category = ''Tools'', item_price = 20\<rparr>"

definition desk :: item where
  "desk = \<lparr>item_id = 3, item_name = ''Desk'', item_category = ''Furniture'', item_price = 30\<rparr>"

section \<open>Facts about the rendering\<close>

lemma toLocaleString_Inl: "(toLocaleString h v = Inl e) = nullish v"
  by (cases v; cases e) (simp_all add: nullish_def)

lemma toLocaleString_Inr: "\<not> nullish v \<Longrightarrow> \<exists>s. toLocaleString h v = Inr s"
  by (cases v) (simp_all add: nullish_def)

lemma number_not_nullish: "is_number v \<Longrightarrow> \<not> nullish v"
  by (cases v) (simp_all add: is_number_def nullish_def)

lemma map_indexed_Inr:
  "(map_indexed f i xs = Inr ys) =
     (length ys = length xs \<and> (\<forall>j<length xs. f (xs ! j) (i + j) = Inr (ys ! j)))"
proof (induction xs arbitrary: i ys)
  case Nil
  then show ?case by auto
next
  case (Cons x xs)
  show ?case
  proof (cases ys)
    case Nil
    then show ?thesis by (auto split: sum.splits)
  next
    case (Cons y ys')
    then show ?thesis
      using Cons.IH [of "Suc i" ys']
      by (auto split: sum.splits simp: less_Suc_eq_0_disj)
  qed
qed

lemma map_indexed_total:
  "(\<exists>ys. map_indexed f i xs = Inr ys) = (\<forall>j<length xs. \<exists>y. f (xs ! j) (i + j) = Inr y)"
proof (induction xs arbitrary: i)
  case Nil
  then show ?case by simp
next
  case (Cons x xs)
  show ?case
    using Cons.IH [of "Suc i"]
    by (auto split: sum.splits simp: less_Suc_eq_0_disj all_conj_distrib)
qed

lemma row_returns: "(\<exists>r. row h n item index = Inr r) = (\<not> nullish (get_prop item ''price''))"
  by (cases "get_prop item ''price''") (simp_all add: nullish_def row_def Let_def)

lemma row_throws: "nullish (get_prop item ''price'') \<Longrightarrow> row h n item index = Inl TypeError"
  by (cases "get_prop item ''price''") (simp_all add: nullish_def row_def Let_def)

lemma render_returns:
  "(\<exists>t. VirtualizedItemList h p = Inr t) = (\<forall>it \<in> set (items p). \<not> nullish (get_prop it ''price''))"
proof -
  have "(\<exists>t. VirtualizedItemList h p = Inr t) =
        (\<exists>rows. map_indexed (row h (length (items p))) 0 (items p) = Inr rows)"
    by (auto simp: VirtualizedItemList_def split: sum.splits)
  also have "\<dots> = (\<forall>j<length (items p). \<not> nullish (get_prop (items p ! j) ''price''))"
    by (simp add: map_indexed_total row_returns)
  also have "\<dots> = (\<forall>it \<in> set (items p). \<not> nullish (get_prop it ''price''))"
    by (metis in_set_conv_nth)
  finally show ?thesis .
qed

lemma render_tree:
  assumes "VirtualizedItemList h p = Inr t"
  shows "style t = container_style (height_or_default (height p))"
    and "length (children t) = length (items p)"
    and "i < length (items p) \<Longrightarrow> row h (length (items p)) (items p ! i) i = Inr (children t ! i)"
  using assms
  by (auto simp: VirtualizedItemList_def map_indexed_Inr split: sum.splits)

lemma row_tree:
  assumes "row h n item index = Inr r"
  shows "key r = element_key h (get_prop item ''id'')"
    and "map_of (style r) ''height'' = Some (JStr ''70px'')"
    and "link_target r = Some (JStr (''/items/'' @ ToString h (get_prop item ''id'')))"
    and "map_option children (name_cell r) = Some [Expr (get_prop item ''name'')]"
    and "map_option children (category_cell r) = Some [Expr (get_prop item ''category'')]"
    and "\<exists>s. toLocaleString h (get_prop item ''price'') = Inr s \<and>
           map_option children (price_cell r) = Some [Text ''$'', Expr (JStr s)]"
    and "map_option tag (row_link r) = Some ''Link''"
    and "tag r = ''div''"
  using assms
  by (auto simp: row_def Let_def link_target_def row_link_def child_def name_cell_def
      category_cell_def price_cell_def plus_string_def split: sum.splits)

lemma element_key_string: "element_key h (JStr s) = Some s"
  by (simp add: element_key_def plus_string_def)

lemma element_key_defined:
  "v \<noteq> JUndefined \<Longrightarrow> element_key h v = Some (ToString h v)"
  by (simp add: element_key_def plus_string_def)

lemma string_ids_distinct:
  "\<forall>v \<in> set vs. \<exists>s. v = JStr s \<Longrightarrow> distinct vs \<Longrightarrow> distinct (map (ToString h) vs)"
proof (induction vs)
  case Nil
  then show ?case by simp
next
  case (Cons v vs)
  from Cons.prems obtain s where v: "v = JStr s" by auto
  have "ToString h v \<notin> ToString h ` set vs"
  proof
    assume "ToString h v \<in> ToString h ` set vs"
    then obtain w where w: "w \<in> set vs" "ToString h w = ToString h v" by auto
    with Cons.prems obtain s' where "w = JStr s'" by auto
    with w v have "w = v" by simp
    with w Cons.prems show False by simp
  qed
  with Cons show ?case by simp
qed

lemma examples_priced:
  "\<forall>it \<in> set (items \<lparr>items = [hammer, laptop], height = H\<rparr>). \<not> nullish (get_prop it ''price'')"
  by (simp add: hammer_def laptop_def get_prop_def nullish_def)

lemma absent_or_null_nullish:
  "ob k = None \<or> ob k = Some JNull \<Longrightarrow> nullish (get_prop ob k)"
  by (auto simp: get_prop_def nullish_def)

section \<open>The claims about the item list\<close>

text \<open>
  Claim C1, as the code has it: whenever the list renders, the outer container caps its
  height at the supplied height \<open>H\<close> (600 when none is supplied) through
  \<open>maxHeight\<close>, scrolls its overflow (\<open>overflow: auto\<close>) and sets no
  \<open>height\<close> of its own, whatever the number of items.
\<close>
theorem container_max_height:
  assumes "\<forall>it \<in> set (items p). \<not> nullish (get_prop it ''price'')"
  shows "\<exists>t. VirtualizedItemList h p = Inr t \<and>
           map_of (style t) ''maxHeight'' =
             Some (if height p = JUndefined then JNum 600 else height p) \<and>
           map_of (style t) ''overflow'' = Some (JStr ''auto'') \<and>
           map_of (style t) ''height'' = None"
proof -
  from assms obtain t where t: "VirtualizedItemList h p = Inr t"
    using render_returns [of h p] by blast
  have "style t = container_style (height_or_default (height p))"
    using t by (rule render_tree(1))
  then show ?thesis
    using t by (simp add: container_style_def height_or_default_def)
qed

theorem container_max_height_witness:
  "\<exists>t. VirtualizedItemList example_host \<lparr>items = [hammer, laptop], height = JNum 400\<rparr> = Inr t \<and>
       map_of (style t) ''maxHeight'' = Some (JNum 400) \<and>
       map_of (style t) ''overflow'' = Some (JStr ''auto'') \<and>
       map_of (style t) ''height'' = None"
  using container_max_height [where h = example_host, OF examples_priced [of "JNum 400"]]
  by simp

text \<open>
  The container of an empty list under the default height: its style caps the height
  at 600 and does not set it, so the box is as tall as its (empty) content.
\<close>
theorem container_height_counterexample:
  "VirtualizedItemList example_host \<lparr>items = [], height = JUndefined\<rparr> =
     Inr (Element ''div'' None [] (container_style (JNum 600)) [] []) \<and>
   map_of (container_style (JNum 600)) ''height'' \<noteq> Some (JNum 600) \<and>
   map_of (container_style (JNum 600)) ''maxHeight'' = Some (JNum 600)"
  by (simp add: VirtualizedItemList_def height_or_default_def container_style_def)

text \<open>
  Claim C2: for every array of items with a price each (no price \<open>undefined\<close> or
  \<open>null\<close>, as the Item of the specification guarantees) and every height, the
  rendered container has exactly one row per element of the array: child \<open>i\<close> of
  the container is the row of \<open>items[i]\<close>, a \<open>div\<close> of height \<open>70px\<close> keyed
  by the id of \<open>items[i]\<close>, linking to that item and showing its name. The rows are
  the same for every height passed to the component: no window of rows is selected.
  The component keeps no state, so a scroll position cannot enter the result.
\<close>
theorem one_row_per_item:
  assumes "\<forall>it \<in> set (items p). \<not> nullish (get_prop it ''price'')"
  shows "\<exists>t. VirtualizedItemList h p = Inr t \<and> length (children t) = length (items p) \<and>
           (\<forall>i < length (items p).
              tag (children t ! i) = ''div'' \<and>
              key (children t ! i) = element_key h (get_prop (items p ! i) ''id'') \<and>
              map_of (style (children t ! i)) ''height'' = Some (JStr ''70px'') \<and>
              link_target (children t ! i) =
                Some (JStr (''/items/'' @ ToString h (get_prop (items p ! i) ''id''))) \<and>
              map_option children (name_cell (children t ! i)) =
                Some [Expr (get_prop (items p ! i) ''name'')]) \<and>
           (\<forall>H. \<exists>t'. VirtualizedItemList h (p\<lparr>height := H\<rparr>) = Inr t' \<and> children t' = children t)"
proof -
  from assms obtain t where t: "VirtualizedItemList h p = Inr t"
    using render_returns [of h p] by blast
  have len: "length (children t) = length (items p)"
    using t by (rule render_tree(2))
  have rows: "tag (children t ! i) = ''div'' \<and>
      key (children t ! i) = element_key h (get_prop (items p ! i) ''id'') \<and>
      map_of (style (children t ! i)) ''height'' = Some (JStr ''70px'') \<and>
      link_target (children t ! i) =
        Some (JStr (''/items/'' @ ToString h (get_prop (items p ! i) ''id''))) \<and>
      map_option children (name_cell (children t ! i)) =
        Some [Expr (get_prop (items p ! i) ''name'')]"
    if i: "i < length (items p)" for i
  proof -
    have r: "row h (length (items p)) (items p ! i) i = Inr (children t ! i)"
      using t i by (rule render_tree(3))
    show ?thesis
      using row_tree(8) [OF r] row_tree(1) [OF r] row_tree(2) [OF r] row_tree(3) [OF r]
        row_tree(4) [OF r]
      by blast
  qed
  have "\<exists>t'. VirtualizedItemList h (p\<lparr>height := H\<rparr>) = Inr t' \<and> children t' = children t" for H
    using t by (auto simp: VirtualizedItemList_def split: sum.splits)
  then show ?thesis
    using t len rows by blast
qed

theorem one_row_per_item_witness:
  "\<exists>t. VirtualizedItemList example_host \<lparr>items = [hammer, laptop], height = JNum 70\<rparr> = Inr t \<and>
       length (children t) = 2 \<and>
       tag (children t ! 0) = ''div'' \<and> key (children t ! 0) = Some ''1'' \<and>
       map_option children (name_cell (children t ! 0)) = Some [Expr (JStr ''Hammer'')] \<and>
       tag (children t ! 1) = ''div'' \<and> key (children t ! 1) = Some ''2'' \<and>
       map_option children (name_cell (children t ! 1)) = Some [Expr (JStr ''Laptop'')]"
proof -
  obtain t where t: "VirtualizedItemList example_host \<lparr>items = [hammer, laptop], height = JNum 70\<rparr> = Inr t"
    and len: "length (children t) = length (items \<lparr>items = [hammer, laptop], height = JNum 70\<rparr>)"
    and rows: "\<forall>i < length (items \<lparr>items = [hammer, laptop], height = JNum 70\<rparr>).
        tag (children t ! i) = ''div'' \<and>
        key (children t ! i) =
          element_key example_host
            (get_prop (items \<lparr>items = [hammer, laptop], height = JNum 70\<rparr> ! i) ''id'') \<and>
        map_of (style (children t ! i)) ''height'' = Some (JStr ''70px'') \<and>
        link_target (children t ! i) =
          Some (JStr (''/items/'' @ ToString example_host
            (get_prop (items \<lparr>items = [hammer, laptop], height = JNum 70\<rparr> ! i) ''id''))) \<and>
        map_option children (name_cell (children t ! i)) =
          Some [Expr (get_prop (items \<lparr>items = [hammer, laptop], height = JNum 70\<rparr> ! i) ''name'')]"
    using one_row_per_item [where h = example_host, OF examples_priced [of "JNum 70"]]
    by blast
  from rows [rule_format, of 0] rows [rule_format, of 1]
  have "tag (children t ! 0) = ''div''" "tag (children t ! 1) = ''div''"
    "key (children t ! 0) = element_key example_host (get_prop hammer ''id'')"
    "key (children t ! 1) = element_key example_host (get_prop laptop ''id'')"
    "map_option children (name_cell (children t ! 0)) = Some [Expr (get_prop hammer ''name'')]"
    "map_option children (name_cell (children t ! 1)) = Some [Expr (get_prop laptop ''name'')]"
    by simp_all
  then show ?thesis
    using t len
    by (auto simp: hammer_def laptop_def get_prop_def example_host_def element_key_def
        plus_string_def)
qed

text \<open>
  Claim C3: for every array of items with a price each, the list renders and every
  row has the style height \<open>70px\<close>, whatever the item holds and wherever it stands
  in the list.
\<close>
theorem fixed_row_height:
  assumes "\<forall>it \<in> set (items p). \<not> nullish (get_prop it ''price'')"
  shows "\<exists>t. VirtualizedItemList h p = Inr t \<and> length (children t) = length (items p) \<and>
           (\<forall>r \<in> set (children t). map_of (style r) ''height'' = Some (JStr ''70px''))"
proof -
  from assms obtain t where t: "VirtualizedItemList h p = Inr t"
    using render_returns [of h p] by blast
  have len: "length (children t) = length (items p)"
    using t by (rule render_tree(2))
  have "map_of (style r) ''height'' = Some (JStr ''70px'')" if "r \<in> set (children t)" for r
  proof -
    from that len obtain i where i: "i < length (items p)" and r: "r = children t ! i"
      by (metis in_set_conv_nth)
    have "row h (length (items p)) (items p ! i) i = Inr r"
      using render_tree(3) [OF t i] r by simp
    then show ?thesis by (rule row_tree(2))
  qed
  then show ?thesis using t len by blast
qed

theorem fixed_row_height_witness:
  "\<exists>t. VirtualizedItemList example_host \<lparr>items = [hammer, laptop], height = JUndefined\<rparr> = Inr t \<and>
       length (children t) = 2 \<and>
       map_of (style (children t ! 0)) ''height'' = Some (JStr ''70px'') \<and>
       map_of (style (children t ! 1)) ''height'' = Some (JStr ''70px'')"
proof -
  obtain t where t: "VirtualizedItemList example_host \<lparr>items = [hammer, laptop], height = JUndefined\<rparr> = Inr t"
    and len: "length (children t) = 2"
    and all: "\<forall>r \<in> set (children t). map_of (style r) ''height'' = Some (JStr ''70px'')"
    using fixed_row_height [where h = example_host, OF examples_priced [of "JUndefined"]]
    by auto
  from len have "children t ! 0 \<in> set (children t)" "children t ! 1 \<in> set (children t)"
    by simp_all
  with all t len show ?thesis by blast
qed

text \<open>
  Claim C4: for every array of items with a price each and every index \<open>i\<close> of it,
  row \<open>i\<close> shows the name and the category of \<open>items[i]\<close> as they are, and a
  dollar sign followed by the locale string of its price; the rows stand in the order
  of the array, one for each item.
\<close>
theorem rows_show_items:
  assumes "\<forall>it \<in> set (items p). \<not> nullish (get_prop it ''price'')"
  shows "\<exists>t. VirtualizedItemList h p = Inr t \<and> length (children t) = length (items p) \<and>
           (\<forall>i < length (items p).
              map_option children (name_cell (children t ! i)) =
                Some [Expr (get_prop (items p ! i) ''name'')] \<and>
              map_option children (category_cell (children t ! i)) =
                Some [Expr (get_prop (items p ! i) ''category'')] \<and>
              (\<exists>s. toLocaleString h (get_prop (items p ! i) ''price'') = Inr s \<and>
                 map_option children (price_cell (children t ! i)) =
                   Some [Text ''$'', Expr (JStr s)]))"
proof -
  from assms obtain t where t: "VirtualizedItemList h p = Inr t"
    using render_returns [of h p] by blast
  have len: "length (children t) = length (items p)"
    using t by (rule render_tree(2))
  have "map_option children (name_cell (children t ! i)) =
          Some [Expr (get_prop (items p ! i) ''name'')] \<and>
        map_option children (category_cell (children t ! i)) =
          Some [Expr (get_prop (items p ! i) ''category'')] \<and>
        (\<exists>s. toLocaleString h (get_prop (items p ! i) ''price'') = Inr s \<and>
           map_option children (price_cell (children t ! i)) =
             Some [Text ''$'', Expr (JStr s)])"
    if i: "i < length (items p)" for i
  proof -
    have r: "row h (length (items p)) (items p ! i) i = Inr (children t ! i)"
      using t i by (rule render_tree(3))
    show ?thesis
      using row_tree(4) [OF r] row_tree(5) [OF r] row_tree(6) [OF r] by blast
  qed
  then show ?thesis using t len by blast
qed

theorem rows_show_items_witness:
  "\<exists>t. VirtualizedItemList example_host \<lparr>items = [hammer, laptop], height = JUndefined\<rparr> = Inr t \<and>
       map_option children (name_cell (children t ! 1)) = Some [Expr (JStr ''Laptop'')] \<and>
       map_option children (category_cell (children t ! 1)) = Some [Expr (JStr ''Electronics'')] \<and>
       map_option children (price_cell (children t ! 1)) = Some [Text ''$'', Expr (JStr ''1,200'')]"
proof -
  obtain t where t: "VirtualizedItemList example_host \<lparr>items = [hammer, laptop], height = JUndefined\<rparr> = Inr t"
    and rows: "\<forall>i < length (items \<lparr>items = [hammer, laptop], height = JUndefined\<rparr>).
        map_option children (name_cell (children t ! i)) =
          Some [Expr (get_prop (items \<lparr>items = [hammer, laptop], height = JUndefined\<rparr> ! i) ''name'')] \<and>
        map_option children (category_cell (children t ! i)) =
          Some [Expr (get_prop (items \<lparr>items = [hammer, laptop], height = JUndefined\<rparr> ! i) ''category'')] \<and>
        (\<exists>s. toLocaleString example_host (get_prop (items \<lparr>items = [hammer, laptop], height = JUndefined\<rparr> ! i) ''price'') = Inr s \<and>
           map_option children (price_cell (children t ! i)) = Some [Text ''$'', Expr (JStr s)])"
    using rows_show_items [where h = example_host, OF examples_priced [of JUndefined]]
    by blast
  from rows [rule_format, of 1] have "map_option children (name_cell (children t ! 1)) =
          Some [Expr (get_prop laptop ''name'')] \<and>
        map_option children (category_cell (children t ! 1)) =
          Some [Expr (get_prop laptop ''category'')] \<and>
        (\<exists>s. toLocaleString example_host (get_prop laptop ''price'') = Inr s \<and>
           map_option children (price_cell (children t ! 1)) = Some [Text ''$'', Expr (JStr s)])"
    by simp
  then show ?thesis
    using t by (auto simp: laptop_def get_prop_def example_host_def)
qed

text \<open>
  Claim C8: when the price of every item is a number, rendering returns a tree; when
  some item has no price or the price \<open>null\<close>, rendering throws a TypeError.
\<close>
theorem render_total_on_numbers:
  "((\<forall>it \<in> set (items p). is_number (get_prop it ''price'')) \<longrightarrow>
      (\<exists>t. VirtualizedItemList h p = Inr t)) \<and>
   ((\<exists>it \<in> set (items p). it ''price'' = None \<or> it ''price'' = Some JNull) \<longrightarrow>
      VirtualizedItemList h p = Inl TypeError)"
proof (intro conjI impI)
  assume "\<forall>it \<in> set (items p). is_number (get_prop it ''price'')"
  then have "\<forall>it \<in> set (items p). \<not> nullish (get_prop it ''price'')"
    using number_not_nullish by blast
  then show "\<exists>t. VirtualizedItemList h p = Inr t"
    by (simp add: render_returns)
next
  assume "\<exists>it \<in> set (items p). it ''price'' = None \<or> it ''price'' = Some JNull"
  then have "\<exists>it \<in> set (items p). nullish (get_prop it ''price'')"
    using absent_or_null_nullish by blast
  then have "\<not> (\<exists>t. VirtualizedItemList h p = Inr t)"
    by (simp add: render_returns)
  then show "VirtualizedItemList h p = Inl TypeError"
    by (cases "VirtualizedItemList h p") (auto intro: error.exhaust)
qed

theorem render_total_on_numbers_witness:
  "(\<exists>t. VirtualizedItemList example_host \<lparr>items = [hammer, laptop], height = JUndefined\<rparr> = Inr t) \<and>
   VirtualizedItemList example_host \<lparr>items = [hammer, unpriced], height = JUndefined\<rparr> = Inl TypeError \<and>
   VirtualizedItemList example_host
     \<lparr>items = [hammer, laptop(''price'' \<mapsto> JNull)], height = JUndefined\<rparr> = Inl TypeError"
proof -
  have a: "\<forall>it \<in> set (items \<lparr>items = [hammer, laptop], height = JUndefined\<rparr>).
             is_number (get_prop it ''price'')"
    by (simp add: hammer_def laptop_def get_prop_def is_number_def)
  have b: "\<exists>it \<in> set (items \<lparr>items = [hammer, unpriced], height = JUndefined\<rparr>).
             it ''price'' = None \<or> it ''price'' = Some JNull"
    by (simp add: unpriced_def)
  have c: "\<exists>it \<in> set (items \<lparr>items = [hammer, laptop(''price'' \<mapsto> JNull)], height = JUndefined\<rparr>).
             it ''price'' = None \<or> it ''price'' = Some JNull"
    by simp
  show ?thesis
    using render_total_on_numbers [of "\<lparr>items = [hammer, laptop], height = JUndefined\<rparr>" example_host] a
      render_total_on_numbers [of "\<lparr>items = [hammer, unpriced], height = JUndefined\<rparr>" example_host] b
      render_total_on_numbers [of "\<lparr>items = [hammer, laptop(''price'' \<mapsto> JNull)], height = JUndefined\<rparr>" example_host] c
    by blast
qed

text \<open>
  Claim C9, as the code has it: for every array of items with a price each, the key
  of row \<open>i\<close> is the id of \<open>items[i]\<close> converted to a string, and a row whose
  item has no id has no key. When every item has an id and the string conversions of
  the ids are pairwise distinct, the keys of the rows are pairwise distinct; ids
  that are pairwise distinct strings are such ids.
\<close>
theorem row_keys_are_ids:
  assumes "\<forall>it \<in> set (items p). \<not> nullish (get_prop it ''price'')"
  shows "\<exists>t. VirtualizedItemList h p = Inr t \<and> length (children t) = length (items p) \<and>
           (\<forall>i < length (items p).
              key (children t ! i) =
                (if get_prop (items p ! i) ''id'' = JUndefined then None
                 else Some (ToString h (get_prop (items p ! i) ''id'')))) \<and>
           ((\<forall>it \<in> set (items p). get_prop it ''id'' \<noteq> JUndefined) \<and>
            distinct (map (\<lambda>it. ToString h (get_prop it ''id'')) (items p)) \<longrightarrow>
              distinct (map key (children t))) \<and>
           ((\<forall>it \<in> set (items p). \<exists>s. get_prop it ''id'' = JStr s) \<and>
            distinct (map (\<lambda>it. get_prop it ''id'') (items p)) \<longrightarrow>
              distinct (map key (children t)))"
proof -
  from assms obtain t where t: "VirtualizedItemList h p = Inr t"
    using render_returns [of h p] by blast
  have len: "length (children t) = length (items p)"
    using t by (rule render_tree(2))
  have keys: "key (children t ! i) = element_key h (get_prop (items p ! i) ''id'')"
    if i: "i < length (items p)" for i
    using row_tree(1) [OF render_tree(3) [OF t i]] .
  have all_keys: "map key (children t) = map (\<lambda>it. element_key h (get_prop it ''id'')) (items p)"
    using len keys by (simp add: list_eq_iff_nth_eq)
  have shown: "key (children t ! i) =
      (if get_prop (items p ! i) ''id'' = JUndefined then None
       else Some (ToString h (get_prop (items p ! i) ''id'')))"
    if i: "i < length (items p)" for i
    using keys [OF i] by (simp add: element_key_def plus_string_def)
  have by_strings: "distinct (map key (children t))"
    if ids: "\<forall>it \<in> set (items p). get_prop it ''id'' \<noteq> JUndefined"
      and d: "distinct (map (\<lambda>it. ToString h (get_prop it ''id'')) (items p))"
  proof -
    have "map key (children t) = map Some (map (\<lambda>it. ToString h (get_prop it ''id'')) (items p))"
      using ids by (simp add: all_keys element_key_defined)
    moreover have "distinct (map Some (map (\<lambda>it. ToString h (get_prop it ''id'')) (items p)))"
      by (rule iffD2 [OF distinct_map]) (use d in simp)
    ultimately show ?thesis by (simp only:)
  qed
  have of_strings: "distinct (map key (children t))"
    if strs: "\<forall>it \<in> set (items p). \<exists>s. get_prop it ''id'' = JStr s"
      and d: "distinct (map (\<lambda>it. get_prop it ''id'') (items p))"
  proof -
    have "distinct (map (ToString h) (map (\<lambda>it. get_prop it ''id'') (items p)))"
      using strs d by (intro string_ids_distinct) auto
    then have "distinct (map (\<lambda>it. ToString h (get_prop it ''id'')) (items p))"
      by (simp add: comp_def)
    moreover have "\<forall>it \<in> set (items p). get_prop it ''id'' \<noteq> JUndefined"
      using strs by auto
    ultimately show ?thesis by (rule by_strings [rotated])
  qed
  show ?thesis using t len shown by_strings of_strings by blast
qed

theorem row_keys_are_ids_witness:
  "\<exists>t. VirtualizedItemList example_host \<lparr>items = [hammer, laptop], height = JUndefined\<rparr> = Inr t \<and>
       key (children t ! 0) = Some ''1'' \<and> key (children t ! 1) = Some ''2'' \<and>
       distinct (map key (children t))"
proof -
  have d: "(\<forall>it \<in> set (items \<lparr>items = [hammer, laptop], height = JUndefined\<rparr>).
        get_prop it ''id'' \<noteq> JUndefined) \<and>
      distinct (map (\<lambda>it. ToString example_host (get_prop it ''id''))
        (items \<lparr>items = [hammer, laptop], height = JUndefined\<rparr>))"
    by (simp add: hammer_def laptop_def get_prop_def example_host_def)
  obtain t where t: "VirtualizedItemList example_host \<lparr>items = [hammer, laptop], height = JUndefined\<rparr> = Inr t"
    and keys: "\<forall>i < length (items \<lparr>items = [hammer, laptop], height = JUndefined\<rparr>).
        key (children t ! i) =
          (if get_prop (items \<lparr>items = [hammer, laptop], height = JUndefined\<rparr> ! i) ''id'' = JUndefined
           then None
           else Some (ToString example_host
             (get_prop (items \<lparr>items = [hammer, laptop], height = JUndefined\<rparr> ! i) ''id'')))"
    and dist: "distinct (map key (children t))"
    using row_keys_are_ids [where h = example_host, OF examples_priced [of JUndefined]] d
    by blast
  from keys [rule_format, of 0] keys [rule_format, of 1]
  have "key (children t ! 0) = Some ''1''" "key (children t ! 1) = Some ''2''"
    by (simp_all add: hammer_def laptop_def get_prop_def example_host_def)
  then show ?thesis
    using t dist by blast
qed

text \<open>
  Two items whose ids are the number 1 and the string \<open>1\<close>: the ids are distinct
  values, the two rows get the same key \<open>1\<close>, and the key of the first row is a
  string where the id is a number.
\<close>
theorem row_keys_counterexample:
  "distinct (map (\<lambda>it. get_prop it ''id'') [hammer, laptop(''id'' \<mapsto> JStr ''1'')]) \<and>
   \<not> isl (VirtualizedItemList example_host
      \<lparr>items = [hammer, laptop(''id'' \<mapsto> JStr ''1'')], height = JUndefined\<rparr>) \<and>
   map key (children (projr (VirtualizedItemList example_host
      \<lparr>items = [hammer, laptop(''id'' \<mapsto> JStr ''1'')], height = JUndefined\<rparr>))) =
     [Some ''1'', Some ''1''] \<and>
   \<not> distinct (map key (children (projr (VirtualizedItemList example_host
      \<lparr>items = [hammer, laptop(''id'' \<mapsto> JStr ''1'')], height = JUndefined\<rparr>))))"
  by (simp add: VirtualizedItemList_def row_def Let_def hammer_def laptop_def get_prop_def
      example_host_def element_key_def plus_string_def)

text \<open>
  Claim C10: for every array of items with a price each and every index \<open>i\<close> of
  it, the first child of row \<open>i\<close> is a \<open>Link\<close> whose target is the string
  \<open>/items/\<close> followed by the id of \<open>items[i]\<close>, converted to a string.
\<close>
theorem rows_link_to_detail:
  assumes "\<forall>it \<in> set (items p). \<not> nullish (get_prop it ''price'')"
  shows "\<exists>t. VirtualizedItemList h p = Inr t \<and> length (children t) = length (items p) \<and>
           (\<forall>i < length (items p).
              map_option tag (row_link (children t ! i)) = Some ''Link'' \<and>
              link_target (children t ! i) =
                Some (JStr (''/items/'' @ ToString h (get_prop (items p ! i) ''id''))))"
proof -
  from assms obtain t where t: "VirtualizedItemList h p = Inr t"
    using render_returns [of h p] by blast
  have len: "length (children t) = length (items p)"
    using t by (rule render_tree(2))
  have "map_option tag (row_link (children t ! i)) = Some ''Link'' \<and>
        link_target (children t ! i) =
          Some (JStr (''/items/'' @ ToString h (get_prop (items p ! i) ''id'')))"
    if i: "i < length (items p)" for i
    using row_tree(3) [OF render_tree(3) [OF t i]] row_tree(7) [OF render_tree(3) [OF t i]]
    by simp
  then show ?thesis using t len by blast
qed

theorem rows_link_to_detail_witness:
  "\<exists>t. VirtualizedItemList example_host \<lparr>items = [hammer, laptop], height = JUndefined\<rparr> = Inr t \<and>
       link_target (children t ! 0) = Some (JStr ''/items/1'') \<and>
       link_target (children t ! 1) = Some (JStr ''/items/2'')"
proof -
  obtain t where t: "VirtualizedItemList example_host \<lparr>items = [hammer, laptop], height = JUndefined\<rparr> = Inr t"
    and links: "\<forall>i < length (items \<lparr>items = [hammer, laptop], height = JUndefined\<rparr>).
        map_option tag (row_link (children t ! i)) = Some ''Link'' \<and>
        link_target (children t ! i) =
          Some (JStr (''/items/'' @ ToString example_host
            (get_prop (items \<lparr>items = [hammer, laptop], height = JUndefined\<rparr> ! i) ''id'')))"
    using rows_link_to_detail [where h = example_host, OF examples_priced [of JUndefined]]
    by blast
  from links [rule_format, of 0] links [rule_format, of 1]
  have "link_target (children t ! 0) =
          Some (JStr (''/items/'' @ ToString example_host (get_prop hammer ''id'')))"
    "link_target (children t ! 1) =
          Some (JStr (''/items/'' @ ToString example_host (get_prop laptop ''id'')))"
    by simp_all
  then show ?thesis
    using t by (auto simp: hammer_def laptop_def get_prop_def example_host_def)
qed

section \<open>Facts about the Query Engine and the Stats Cache\<close>

lemma slice_length:
  "int (length (take l (drop k xs))) = min (int l) (max 0 (int (length xs) - int k))"
  by (simp add: min_def max_def) linarith

lemma page_offset:
  "1 \<le> pg \<Longrightarrow> (int pg - 1) * int lm = int ((pg - 1) * lm)"
  by (simp add: of_nat_diff)

lemma contains_ci_iff:
  "contains_ci text q = (\<exists>pre suf. map to_lower text = pre @ map to_lower q @ suf)"
  by (simp add: contains_ci_def sublist_def)

lemma tool_examples:
  "contains_ci ''power tool'' ''Tool''" "contains_ci ''Garden'' ''Tool'' = False"
  "contains_ci ''Wrench'' ''Tool'' = False" "contains_ci ''Tools'' ''Tool''"
  "contains_ci ''Desk'' ''Tool'' = False" "contains_ci ''Furniture'' ''Tool'' = False"
  by code_simp+

lemma getStats_recomputed:
  "state_of c (mtime st) \<noteq> Valid \<Longrightarrow>
     getStats c st =
       (compute_stats (collection st),
        Some \<lparr>cached_value = compute_stats (collection st), observedTimestamp = mtime st\<rparr>,
        st\<lparr>reads := reads st + 1\<rparr>)"
  by (auto simp: getStats_def state_of_def recompute_def store_list_def Let_def
      split: option.splits if_splits)

lemma getStats_fresh:
  "state_of c (mtime st) = Valid \<Longrightarrow>
     \<exists>e. c = Some e \<and> observedTimestamp e = mtime st \<and> getStats c st = (cached_value e, c, st)"
  by (auto simp: getStats_def state_of_def Let_def split: option.splits if_splits)

lemma getStats_leaves_valid:
  assumes "getStats c st = (v, c', st')"
  shows "state_of c' (mtime st') = Valid \<and> (\<exists>e. c' = Some e \<and> cached_value e = v) \<and>
     reads st' \<le> reads st + 1"
proof (cases "state_of c (mtime st) = Valid")
  case True
  from getStats_fresh [OF True] assms
  obtain e where "c = Some e" "v = cached_value e" "c' = c" "st' = st"
    by auto
  with True show ?thesis by simp
next
  case False
  from getStats_recomputed [OF False] assms
  show ?thesis by (auto simp: state_of_def)
qed

section \<open>The claims about the backend, on the model of the specification\<close>

text \<open>
  Claim C5: for every collection and all query parameters with a page of at least 1,
  the Query Engine returns \<open>min(limit, max(0, total - (page - 1) * limit))\<close> items,
  where total is the number of items after filtering; a page beyond the last one
  gives no items, and the total is the same for every page and limit. The result is
  a value in every case: the function has no error outcome.
\<close>

theorem pagination_postcondition:
  assumes "1 \<le> page_or_default ps"
  shows "int (length (r_items (query_engine coll ps))) =
           min (int (limit_or_default ps))
             (max 0 (int (r_total (query_engine coll ps)) -
                (int (page_or_default ps) - 1) * int (limit_or_default ps))) \<and>
         r_total (query_engine coll ps) = length (apply_search (search ps) coll) \<and>
         (r_total (query_engine coll ps) \<le> (page_or_default ps - 1) * limit_or_default ps \<longrightarrow>
            r_items (query_engine coll ps) = []) \<and>
         (\<forall>pg lm. r_total (query_engine coll (ps\<lparr>page := pg, limit := lm\<rparr>)) =
            r_total (query_engine coll ps))"
proof -
  have items: "r_items (query_engine coll ps) =
      take (limit_or_default ps)
        (drop ((page_or_default ps - 1) * limit_or_default ps) (apply_search (search ps) coll))"
    by (simp add: query_engine_def Let_def)
  have total: "r_total (query_engine coll qs) = length (apply_search (search qs) coll)" for qs
    by (simp add: query_engine_def Let_def)
  have "int (length (r_items (query_engine coll ps))) =
           min (int (limit_or_default ps))
             (max 0 (int (r_total (query_engine coll ps)) -
                (int (page_or_default ps) - 1) * int (limit_or_default ps)))"
    unfolding items total page_offset [OF assms] by (rule slice_length)
  moreover have "r_items (query_engine coll ps) = []"
    if "r_total (query_engine coll ps) \<le> (page_or_default ps - 1) * limit_or_default ps"
    using that unfolding items total by simp
  moreover have "r_total (query_engine coll (ps\<lparr>page := pg, limit := lm\<rparr>)) =
      r_total (query_engine coll ps)" for pg lm
    by (simp add: total)
  ultimately show ?thesis using total by blast
qed

theorem pagination_postcondition_witness:
  "length (r_items (query_engine [power_tool, wrench, desk]
      \<lparr>search = None, page = Some 2, limit = Some 2\<rparr>)) = 1 \<and>
   r_total (query_engine [power_tool, wrench, desk]
      \<lparr>search = None, page = Some 2, limit = Some 2\<rparr>) = 3 \<and>
   r_items (query_engine [power_tool, wrench, desk]
      \<lparr>search = None, page = Some 5, limit = Some 2\<rparr>) = [] \<and>
   r_total (query_engine [power_tool, wrench, desk]
      \<lparr>search = None, page = Some 5, limit = Some 2\<rparr>) = 3"
proof -
  have a: "1 \<le> page_or_default \<lparr>search = None, page = Some 2, limit = Some 2\<rparr>"
    by (simp add: page_or_default_def)
  have b: "1 \<le> page_or_default \<lparr>search = None, page = Some 5, limit = Some 2\<rparr>"
    by (simp add: page_or_default_def)
  have total: "length (apply_search None [power_tool, wrench, desk]) = 3"
    by (simp add: apply_search_def)
  from pagination_postcondition [OF a, of "[power_tool, wrench, desk]"]
  have "length (r_items (query_engine [power_tool, wrench, desk]
      \<lparr>search = None, page = Some 2, limit = Some 2\<rparr>)) = 1"
    and "r_total (query_engine [power_tool, wrench, desk]
      \<lparr>search = None, page = Some 2, limit = Some 2\<rparr>) = 3"
    by (auto simp: total page_or_default_def limit_or_default_def)
  moreover from pagination_postcondition [OF b, of "[power_tool, wrench, desk]"]
  have "r_items (query_engine [power_tool, wrench, desk]
      \<lparr>search = None, page = Some 5, limit = Some 2\<rparr>) = []"
    and "r_total (query_engine [power_tool, wrench, desk]
      \<lparr>search = None, page = Some 5, limit = Some 2\<rparr>) = 3"
    by (auto simp: total page_or_default_def limit_or_default_def)
  ultimately show ?thesis by blast
qed

text \<open>
  Claim C6: a search text that is not empty after trimming keeps exactly the items
  whose name or category contains it, letters compared without case, in the order of
  the collection; an absent or empty search keeps every item. The total and the page
  of the result are taken from the kept items.
\<close>

theorem search_filter:
  "(search ps = Some q \<and> trim q \<noteq> [] \<longrightarrow>
      apply_search (search ps) coll =
        filter (\<lambda>it. (\<exists>pre suf. map to_lower (item_name it) = pre @ map to_lower q @ suf) \<or>
                     (\<exists>pre suf. map to_lower (item_category it) = pre @ map to_lower q @ suf)) coll) \<and>
   (search ps = None \<or> (\<exists>q. search ps = Some q \<and> trim q = []) \<longrightarrow>
      apply_search (search ps) coll = coll) \<and>
   r_total (query_engine coll ps) = length (apply_search (search ps) coll) \<and>
   r_items (query_engine coll ps) =
     take (limit_or_default ps)
       (drop ((page_or_default ps - 1) * limit_or_default ps) (apply_search (search ps) coll))"
proof (intro conjI impI)
  assume "search ps = Some q \<and> trim q \<noteq> []"
  then show "apply_search (search ps) coll =
        filter (\<lambda>it. (\<exists>pre suf. map to_lower (item_name it) = pre @ map to_lower q @ suf) \<or>
                     (\<exists>pre suf. map to_lower (item_category it) = pre @ map to_lower q @ suf)) coll"
    by (simp add: apply_search_def matches_def [abs_def] contains_ci_iff)
next
  assume "search ps = None \<or> (\<exists>q. search ps = Some q \<and> trim q = [])"
  then show "apply_search (search ps) coll = coll"
    by (auto simp: apply_search_def)
qed (simp_all add: query_engine_def Let_def)

theorem search_filter_witness:
  "apply_search (Some ''Tool'') [power_tool, wrench, desk] = [power_tool, wrench] \<and>
   apply_search (Some ''  '') [power_tool, wrench, desk] = [power_tool, wrench, desk] \<and>
   apply_search None [power_tool, wrench, desk] = [power_tool, wrench, desk]"
proof -
  have t: "search \<lparr>search = Some ''Tool'', page = None, limit = None\<rparr> = Some ''Tool'' \<and>
      trim ''Tool'' \<noteq> []"
    by (simp add: trim_def is_space_def)
  have e: "search \<lparr>search = Some ''  '', page = None, limit = None\<rparr> = None \<or>
      (\<exists>q. search \<lparr>search = Some ''  '', page = None, limit = None\<rparr> = Some q \<and> trim q = [])"
    by (simp add: trim_def is_space_def)
  have n: "search \<lparr>search = None, page = None, limit = None\<rparr> = None \<or>
      (\<exists>q. search \<lparr>search = None, page = None, limit = None\<rparr> = Some q \<and> trim q = [])"
    by simp
  have "apply_search (Some ''Tool'') [power_tool, wrench, desk] =
      filter (\<lambda>it. contains_ci (item_name it) ''Tool'' \<or> contains_ci (item_category it) ''Tool'')
        [power_tool, wrench, desk]"
    using search_filter [of "\<lparr>search = Some ''Tool'', page = None, limit = None\<rparr>" "''Tool''"
        "[power_tool, wrench, desk]"] t
    by (simp add: contains_ci_iff)
  also have "\<dots> = [power_tool, wrench]"
    by (simp add: power_tool_def wrench_def desk_def tool_examples)
  finally have first: "apply_search (Some ''Tool'') [power_tool, wrench, desk] = [power_tool, wrench]" .
  have second: "apply_search (Some ''  '') [power_tool, wrench, desk] = [power_tool, wrench, desk]"
    using search_filter [of "\<lparr>search = Some ''  '', page = None, limit = None\<rparr>" "''x''"
        "[power_tool, wrench, desk]"] e
    by simp
  have third: "apply_search None [power_tool, wrench, desk] = [power_tool, wrench, desk]"
    using search_filter [of "\<lparr>search = None, page = None, limit = None\<rparr>" "''x''"
        "[power_tool, wrench, desk]"] n
    by simp
  from first second third show ?thesis by blast
qed

text \<open>
  Claim C7: in every cache state, a call of \<open>getStats\<close> that finds the cache Valid
  (the store's modification timestamp equals the observed one) returns the cached
  value and leaves cache and store as they were: the read count does not move. Of two
  calls in a row with no change of the file between them, the second returns the
  value of the first and reads nothing, so both together read at most once.
\<close>

theorem fresh_cache_reads_nothing:
  "(state_of c (mtime st) = Valid \<longrightarrow>
      (\<exists>e. c = Some e \<and> getStats c st = (cached_value e, c, st)) \<and>
      reads (snd (snd (getStats c st))) = reads st) \<and>
   (case getStats c st of
      (v1, c1, st1) \<Rightarrow>
        (case getStats c1 st1 of
           (v2, c2, st2) \<Rightarrow> v2 = v1 \<and> reads st2 = reads st1 \<and> reads st2 \<le> reads st + 1))"
proof (intro conjI impI)
  assume "state_of c (mtime st) = Valid"
  then obtain e where "c = Some e" "getStats c st = (cached_value e, c, st)"
    using getStats_fresh by blast
  then show "\<exists>e. c = Some e \<and> getStats c st = (cached_value e, c, st)"
    and "reads (snd (snd (getStats c st))) = reads st"
    by simp_all
next
  obtain v1 c1 st1 where first: "getStats c st = (v1, c1, st1)"
    by (metis prod_cases3)
  from getStats_leaves_valid [OF first]
  have valid: "state_of c1 (mtime st1) = Valid" and value1: "\<exists>e. c1 = Some e \<and> cached_value e = v1"
    and once: "reads st1 \<le> reads st + 1"
    by simp_all
  from getStats_fresh [OF valid] value1
  have "getStats c1 st1 = (v1, c1, st1)" by auto
  with first once
  show "case getStats c st of
      (v1, c1, st1) \<Rightarrow>
        (case getStats c1 st1 of
           (v2, c2, st2) \<Rightarrow> v2 = v1 \<and> reads st2 = reads st1 \<and> reads st2 \<le> reads st + 1)"
    by simp
qed

theorem fresh_cache_reads_nothing_witness:
  "getStats (Some \<lparr>cached_value = \<lparr>count = 2, averagePrice = 15\<rparr>, observedTimestamp = 5\<rparr>)
     \<lparr>mtime = 5, collection = [power_tool, wrench], reads = 1\<rparr> =
     (\<lparr>count = 2, averagePrice = 15\<rparr>,
      Some \<lparr>cached_value = \<lparr>count = 2, averagePrice = 15\<rparr>, observedTimestamp = 5\<rparr>,
      \<lparr>mtime = 5, collection = [power_tool, wrench], reads = 1\<rparr>) \<and>
   reads (snd (snd (getStats
     (Some \<lparr>cached_value = \<lparr>count = 2, averagePrice = 15\<rparr>, observedTimestamp = 5\<rparr>)
     \<lparr>mtime = 5, collection = [power_tool, wrench], reads = 1\<rparr>))) = 1"
proof -
  have fresh: "state_of (Some \<lparr>cached_value = \<lparr>count = 2, averagePrice = 15\<rparr>, observedTimestamp = 5\<rparr>)
      (mtime \<lparr>mtime = 5, collection = [power_tool, wrench], reads = 1\<rparr>) = Valid"
    by (simp add: state_of_def)
  show ?thesis
    using fresh_cache_reads_nothing
      [of "Some \<lparr>cached_value = \<lparr>count = 2, averagePrice = 15\<rparr>, observedTimestamp = 5\<rparr>"
          "\<lparr>mtime = 5, collection = [power_tool, wrench], reads = 1\<rparr>"] fresh
    by auto
qed

end
